theory Spec2Isabelle
  imports Main
begin

section \<open>Data model\<close>

text \<open>
  The chat agent of \<^verbatim>\<open>src/agent/agent_builder.py\<close> is a graph of five nodes over an
  \<^verbatim>\<open>AgentState\<close>. Every node returns a dictionary holding only the keys it changes; the
  graph merges it into the state. A raise of the Python code is the left summand of the
  result.
\<close>

datatype error =
    IndexError
  | KeyError
  | AttributeError
  | ValueError
  | ToolException string
  | GatewayException string

text \<open>
  A tool call is the dictionary \<^verbatim>\<open>{"name": ..., "args": ..., "id": ...}\<close> that an assistant
  message carries; the arguments are kept as the list of their key/value pairs.
\<close>

datatype tool_call =
  ToolCall (tc_name: string) (tc_args: "(string \<times> string) list") (tc_id: string)

text \<open>
  The message classes the code handles. Only \<^verbatim>\<open>AIMessage\<close> has the attribute
  \<^verbatim>\<open>tool_calls\<close> (an empty list when the model asked for no tool); only
  \<^verbatim>\<open>ToolMessage\<close> has \<^verbatim>\<open>tool_call_id\<close>. The attribute \<^verbatim>\<open>id\<close> is \<^verbatim>\<open>None\<close> until the message
  is merged into the state.
\<close>

datatype message =
    HumanMessage (content: string) (m_id: "string option")
  | AIMessage (content: string) (tool_calls: "tool_call list") (m_id: "string option")
  | ToolMessage (content: string) (tool_call_id: string) (m_id: "string option")
  | SystemMessage (content: string) (m_id: "string option")
  | RemoveMessage (m_id: "string option")

fun msg_type :: "message \<Rightarrow> string" where
  "msg_type (HumanMessage _ _) = ''human''"
| "msg_type (AIMessage _ _ _) = ''ai''"
| "msg_type (ToolMessage _ _ _) = ''tool''"
| "msg_type (SystemMessage _ _) = ''system''"
| "msg_type (RemoveMessage _) = ''remove''"

text \<open>\<^verbatim>\<open>hasattr(m, "tool_calls") and getattr(m, "tool_calls")\<close>.\<close>

fun has_tool_calls :: "message \<Rightarrow> bool" where
  "has_tool_calls (AIMessage _ tcs _) = (tcs \<noteq> [])"
| "has_tool_calls _ = False"

fun set_id :: "string \<Rightarrow> message \<Rightarrow> message" where
  "set_id i (HumanMessage c _) = HumanMessage c (Some i)"
| "set_id i (AIMessage c tcs _) = AIMessage c tcs (Some i)"
| "set_id i (ToolMessage c t _) = ToolMessage c t (Some i)"
| "set_id i (SystemMessage c _) = SystemMessage c (Some i)"
| "set_id i (RemoveMessage _) = RemoveMessage (Some i)"

fun isinstance_RemoveMessage :: "message \<Rightarrow> bool" where
  "isinstance_RemoveMessage (RemoveMessage _) = True"
| "isinstance_RemoveMessage _ = False"

text \<open>
  \<^verbatim>\<open>AgentState\<close> (agent_builder.py:19-27). The scalar keys are absent (\<open>None\<close>) until a node
  has written them; \<^verbatim>\<open>messages\<close> is a channel with a reducer and starts as the empty list.
\<close>

record AgentState =
  messages :: "message list"
  current_user_id :: "string option"
  current_user_name :: "string option"
  current_session_id :: "string option"
  current_summary :: "string option"

text \<open>What a node returns: for each key of the state, the value written or nothing.\<close>

record partial_update =
  u_messages :: "message list option"
  u_current_user_id :: "string option"
  u_current_user_name :: "string option"
  u_current_session_id :: "string option"
  u_current_summary :: "string option"

definition no_update :: partial_update where
  "no_update = \<lparr>u_messages = None, u_current_user_id = None, u_current_user_name = None,
     u_current_session_id = None, u_current_summary = None\<rparr>"

section \<open>Thread identifiers\<close>

text \<open>Python's \<^verbatim>\<open>s.split(sep)\<close> for a separator of one character.\<close>

fun split_from :: "char \<Rightarrow> string \<Rightarrow> string \<Rightarrow> string list" where
  "split_from sep cur [] = [cur]"
| "split_from sep cur (c # cs) =
     (if c = sep then cur # split_from sep [] cs else split_from sep (cur @ [c]) cs)"

definition str_split :: "string \<Rightarrow> char \<Rightarrow> string list" where
  "str_split s sep = split_from sep [] s"

text \<open>The thread identifier \<^verbatim>\<open>f"{user_id}-{sess_id}"\<close> of main.py:54 and main.py:151.\<close>

definition format_thread_id :: "string \<Rightarrow> string \<Rightarrow> string" where
  "format_thread_id user_id sess_id = user_id @ ''-'' @ sess_id"

text \<open>
  The prefix of the display name, the two characters of \<^verbatim>\<open>f"..{user_info[0]}"\<close>
  (agent_builder.py:42) as their six UTF-8 bytes.
\<close>

definition user_name_prefix :: string where
  "user_name_prefix = map char_of [0xE7, 0x94, 0xA8, 0xE6, 0x88, 0xB7 :: nat]"

text \<open>
  \<^verbatim>\<open>runtime_load_node\<close> (agent_builder.py:36-45). The second argument is
  \<^verbatim>\<open>config["configurable"]["thread_id"]\<close>. \<^verbatim>\<open>user_info[1]\<close> raises when the identifier has
  no \<^verbatim>\<open>-\<close>.
\<close>

definition runtime_load_node :: "AgentState \<Rightarrow> string \<Rightarrow> error + partial_update" where
  "runtime_load_node state thread_id =
     (let user_info = str_split thread_id CHR ''-''
      in case user_info of
           [] \<Rightarrow> Inl IndexError
         | [u] \<Rightarrow> Inl IndexError
         | u # sess # _ \<Rightarrow>
             Inr \<lparr>u_messages = None,
                  u_current_user_id = Some u,
                  u_current_user_name = Some (user_name_prefix @ u),
                  u_current_session_id = Some sess,
                  u_current_summary = Some ''''\<rparr>)"

text \<open>
  \<^verbatim>\<open>chat\<close> (main.py:38-62). The headers are \<open>None\<close> when the request does not carry them.
  The response is either the JSON error object, or the event stream, which runs the agent
  on the thread identifier and the input \<^verbatim>\<open>{"messages": [HumanMessage(content=message)]}\<close>.
\<close>

datatype chat_response =
    JSONResponse int string
  | EventSourceResponse string partial_update

definition falsy :: "string option \<Rightarrow> bool" where
  "falsy v = (case v of None \<Rightarrow> True | Some s \<Rightarrow> s = [])"

definition chat :: "string option \<Rightarrow> string option \<Rightarrow> string \<Rightarrow> chat_response" where
  "chat x_user x_sess message =
     (if falsy x_user \<or> falsy x_sess then JSONResponse (- 1) ''invalid user''
      else if message = [] then JSONResponse (- 1) ''invalid message''
      else EventSourceResponse (format_thread_id (the x_user) (the x_sess))
             (no_update\<lparr>u_messages := Some [HumanMessage message None]\<rparr>))"

section \<open>Merging a partial update\<close>

text \<open>
  Modelled from the spec: the merge of a node's partial update into the state (section 4.1:
  scalar fields are overwritten, the message sequence has its removals applied by identity
  and its appends in emission order, unspecified fields are left unchanged). The reducer
  \<^verbatim>\<open>add_messages\<close> that \<^verbatim>\<open>AgentState\<close> names (agent_builder.py:5 and :20) belongs to the
  langgraph library and is not in the sources. It gives every message without an id a
  fresh one (\<open>uuid\<close> lists the values drawn), then goes through the new messages in order:
  a \<^verbatim>\<open>RemoveMessage\<close> marks the id it names for removal and is an error when no message
  has that id; another message replaces the message of the same id in place, or is
  appended when its id is new. The marked ids are removed at the end.
\<close>

fun assign_ids :: "(nat \<Rightarrow> string) \<Rightarrow> nat \<Rightarrow> message list \<Rightarrow> message list" where
  "assign_ids uuid n [] = []"
| "assign_ids uuid n (m # ms) =
     (case m_id m of
        None \<Rightarrow> set_id (uuid n) m # assign_ids uuid (Suc n) ms
      | Some _ \<Rightarrow> m # assign_ids uuid n ms)"

definition missing_ids :: "message list \<Rightarrow> nat" where
  "missing_ids ms = length (filter (\<lambda>m. m_id m = None) ms)"

fun merge_loop ::
  "message list \<Rightarrow> (string option \<rightharpoonup> nat) \<Rightarrow> string option set \<Rightarrow> message list
     \<Rightarrow> error + message list" where
  "merge_loop merged merged_by_id ids_to_remove [] =
     Inr (filter (\<lambda>m. m_id m \<notin> ids_to_remove) merged)"
| "merge_loop merged merged_by_id ids_to_remove (m # ms) =
     (case merged_by_id (m_id m) of
        Some existing_idx \<Rightarrow>
          (if isinstance_RemoveMessage m
           then merge_loop merged merged_by_id (insert (m_id m) ids_to_remove) ms
           else merge_loop (merged[existing_idx := m]) merged_by_id
                  (ids_to_remove - {m_id m}) ms)
      | None \<Rightarrow>
          (if isinstance_RemoveMessage m then Inl ValueError
           else merge_loop (merged @ [m]) (merged_by_id(m_id m \<mapsto> length merged))
                  ids_to_remove ms))"

definition add_messages ::
  "(nat \<Rightarrow> string) \<Rightarrow> message list \<Rightarrow> message list \<Rightarrow> error + message list" where
  "add_messages uuid left right =
     (let left' = assign_ids uuid 0 left;
          right' = assign_ids uuid (missing_ids left) right;
          merged_by_id = map_of (rev (zip (map m_id left') [0..<length left']))
      in merge_loop left' merged_by_id {} right')"

definition overwrite :: "'a option \<Rightarrow> 'a option \<Rightarrow> 'a option" where
  "overwrite old new = (case new of None \<Rightarrow> old | Some v \<Rightarrow> Some v)"

definition apply_update ::
  "(nat \<Rightarrow> string) \<Rightarrow> AgentState \<Rightarrow> partial_update \<Rightarrow> error + AgentState" where
  "apply_update uuid state upd =
     (case (case u_messages upd of
              None \<Rightarrow> Inr (messages state)
            | Some new \<Rightarrow> add_messages uuid (messages state) new) of
        Inl e \<Rightarrow> Inl e
      | Inr msgs \<Rightarrow>
          Inr \<lparr>messages = msgs,
               current_user_id = overwrite (current_user_id state) (u_current_user_id upd),
               current_user_name = overwrite (current_user_name state) (u_current_user_name upd),
               current_session_id =
                 overwrite (current_session_id state) (u_current_session_id upd),
               current_summary = overwrite (current_summary state) (u_current_summary upd)\<rparr>)"

section \<open>The collaborators\<close>

text \<open>
  What a chat model's \<^verbatim>\<open>ainvoke\<close> returns is an \<^verbatim>\<open>AIMessage\<close>: its content, its tool calls
  and the id the provider gave it, if any.
\<close>

datatype completion =
  Completion (c_content: string) (c_tool_calls: "tool_call list") (c_id: "string option")

definition to_message :: "completion \<Rightarrow> message" where
  "to_message r = AIMessage (c_content r) (c_tool_calls r) (c_id r)"

text \<open>
  The names the nodes take from their modules and libraries, as parameters: the token
  counter, the two chat models (a failed call gives the text of its exception), the tool
  registry \<^verbatim>\<open>tool_map\<close> (a tool that raises gives the text of its exception), the system
  prompt, and the ids \<^verbatim>\<open>uuid4\<close> draws in each step of a thread. A tool that reads the clock
  and the random ids are fixed here at the outcome they have in the one invocation a
  theorem looks at; no theorem compares two runs.
\<close>

record env =
  count_tokens_approximately :: "message list \<Rightarrow> nat"
  qwen3_8b :: "message list \<Rightarrow> string + completion"
  qwen3_8b_with_tools :: "message list \<Rightarrow> string + completion"
  tool_map :: "string \<rightharpoonup> ((string \<times> string) list \<Rightarrow> string + string)"
  SystemPrompt :: message
  uuid4 :: "nat \<Rightarrow> nat \<Rightarrow> string"

section \<open>The nodes\<close>

text \<open>\<^verbatim>\<open>delete_tool_message_node\<close> (agent_builder.py:47-53).\<close>

definition delete_tool_message_node :: "AgentState \<Rightarrow> partial_update" where
  "delete_tool_message_node state =
     (let delete_messages =
            map (\<lambda>m. RemoveMessage (m_id m))
              (filter (\<lambda>m. msg_type m = ''tool'' \<or> has_tool_calls m) (messages state))
      in no_update\<lparr>u_messages := Some delete_messages\<rparr>)"

text \<open>
  \<^verbatim>\<open>summarize_conversation_node\<close> (agent_builder.py:55-82); \<open>summary_message\<close> is the
  instruction of lines 62-74, and \<open>get_summary\<close> is \<^verbatim>\<open>state.get("current_summary", "")\<close>.
  \<^verbatim>\<open>state["messages"][:-2]\<close> is the whole list but its last two messages, and is empty
  when the list has fewer than two.
\<close>

definition get_summary :: "AgentState \<Rightarrow> string" where
  "get_summary state = (case current_summary state of None \<Rightarrow> [] | Some s \<Rightarrow> s)"

definition summary_message :: "AgentState \<Rightarrow> string" where
  "summary_message state =
     (let summary = get_summary state
      in if summary \<noteq> [] then
           ''This is a summary of the conversation to date: '' @ summary @ [CHR 0x0A, CHR 0x0A]
             @ ''Extend the summary by taking into account the new messages above:''
         else ''Create a summary of the conversation above:'')"

definition summarize_conversation_node :: "env \<Rightarrow> AgentState \<Rightarrow> error + partial_update" where
  "summarize_conversation_node E state =
     (let tokens = count_tokens_approximately E (messages state)
      in if tokens < 128 * 1000 then Inr no_update
         else
           (case qwen3_8b E (messages state @ [HumanMessage (summary_message state) None]) of
              Inl e \<Rightarrow> Inl (GatewayException e)
            | Inr response \<Rightarrow>
                (let delete_messages =
                       map (\<lambda>m. RemoveMessage (m_id m))
                         (take (length (messages state) - 2) (messages state))
                 in Inr (no_update\<lparr>u_current_summary := Some (c_content response),
                                     u_messages := Some delete_messages\<rparr>))))"

text \<open>
  \<^verbatim>\<open>llm_call_node\<close> (agent_builder.py:84-95). \<open>summary_note_prefix\<close> is the text before the
  summary in the system note of lines 89-90, as its UTF-8 bytes.
\<close>

definition summary_note_prefix :: string where
  "summary_note_prefix = map char_of
     [0xE5, 0x9B, 0xA0, 0xE5, 0xAF, 0xB9, 0xE8, 0xAF, 0x9D, 0xE8, 0xB6, 0x85, 0xE8, 0xBF, 0x87,
      0xE6, 0xA8, 0xA1, 0xE5, 0x9E, 0x8B, 0xE4, 0xB8, 0x8A, 0xE4, 0xB8, 0x8B, 0xE6, 0x96, 0x87,
      0xEF, 0xBC, 0x8C, 0xE5, 0x9B, 0xA0, 0xE6, 0xAD, 0xA4, 0xE5, 0x81, 0x9A, 0xE4, 0xBA, 0x86,
      0xE4, 0xB8, 0x80, 0xE6, 0xAC, 0xA1, 0xE6, 0x91, 0x98, 0xE8, 0xA6, 0x81, 0xE6, 0x80, 0xBB,
      0xE7, 0xBB, 0x93, 0xEF, 0xBC, 0x8C, 0xE4, 0xBB, 0xA5, 0xE4, 0xB8, 0x8B, 0xE6, 0x98, 0xAF,
      0xE5, 0xAF, 0xB9, 0xE8, 0xAF, 0x9D, 0xE5, 0x8E, 0x86, 0xE5, 0x8F, 0xB2, 0xE7, 0x9A, 0x84,
      0xE6, 0x91, 0x98, 0xE8, 0xA6, 0x81, 0xEF, 0xBC, 0x8C, 0xE8, 0xAF, 0xB7, 0xE4, 0xBD, 0x9C,
      0xE4, 0xB8, 0xBA, 0xE5, 0xB7, 0xB2, 0xE7, 0x9F, 0xA5, 0xE4, 0xBA, 0x8B, 0xE5, 0xAE, 0x9E,
      0xE4, 0xBD, 0xBF, 0xE7, 0x94, 0xA8, 0xEF, 0xBC, 0x8C, 0xE8, 0x80, 0x8C, 0xE4, 0xB8, 0x8D,
      0xE6, 0x98, 0xAF, 0xE9, 0x80, 0x90, 0xE5, 0xAD, 0x97, 0xE5, 0xA4, 0x8D, 0xE8, 0xBF, 0xB0,
      0x3A, 0x20 :: nat]"

definition llm_call_node :: "env \<Rightarrow> AgentState \<Rightarrow> error + partial_update" where
  "llm_call_node E state =
     (let current_summary' = get_summary state;
          basic_messages =
            (if current_summary' \<noteq> []
             then [SystemPrompt E, SystemMessage (summary_note_prefix @ current_summary') None]
             else [SystemPrompt E])
      in case qwen3_8b_with_tools E (basic_messages @ messages state) of
           Inl e \<Rightarrow> Inl (GatewayException e)
         | Inr response \<Rightarrow> Inr (no_update\<lparr>u_messages := Some [to_message response]\<rparr>))"

text \<open>
  \<^verbatim>\<open>tool_node\<close> (agent_builder.py:98-104). \<open>tool_loop\<close> is its \<^verbatim>\<open>for\<close> loop with the list
  \<^verbatim>\<open>result\<close>: \<^verbatim>\<open>tool_map[...]\<close> raises \<^verbatim>\<open>KeyError\<close> for a name that is not registered, and
  an exception of the tool leaves the loop. \<^verbatim>\<open>state["messages"][-1]\<close> raises on the empty
  list, and \<^verbatim>\<open>.tool_calls\<close> on a message that is not an \<^verbatim>\<open>AIMessage\<close>.
\<close>

fun tool_loop ::
  "(string \<rightharpoonup> ((string \<times> string) list \<Rightarrow> string + string)) \<Rightarrow> tool_call list
     \<Rightarrow> message list \<Rightarrow> error + message list" where
  "tool_loop tm [] result = Inr result"
| "tool_loop tm (tool_call # rest) result =
     (case tm (tc_name tool_call) of
        None \<Rightarrow> Inl KeyError
      | Some tool \<Rightarrow>
          (case tool (tc_args tool_call) of
             Inl e \<Rightarrow> Inl (ToolException e)
           | Inr observation \<Rightarrow>
               tool_loop tm rest
                 (result @ [ToolMessage observation (tc_id tool_call) None])))"

definition tool_node :: "env \<Rightarrow> AgentState \<Rightarrow> error + partial_update" where
  "tool_node E state =
     (case messages state of
        [] \<Rightarrow> Inl IndexError
      | _ # _ \<Rightarrow>
          (case last (messages state) of
             AIMessage _ tcs _ \<Rightarrow>
               (case tool_loop (tool_map E) tcs [] of
                  Inl e \<Rightarrow> Inl e
                | Inr result \<Rightarrow> Inr (no_update\<lparr>u_messages := Some result\<rparr>))
           | _ \<Rightarrow> Inl AttributeError))"

text \<open>The nodes of the graph, and \<^verbatim>\<open>END\<close>.\<close>

datatype node =
    RuntimeLoadNode
  | DeleteToolMessageNode
  | SummarizeConversationNode
  | LlmCallNode
  | ToolNode
  | END

text \<open>\<^verbatim>\<open>should_continue\<close> (agent_builder.py:106-117).\<close>

definition should_continue :: "AgentState \<Rightarrow> error + node" where
  "should_continue state =
     (case messages state of
        [] \<Rightarrow> Inl IndexError
      | _ # _ \<Rightarrow>
          (case last (messages state) of
             AIMessage _ tcs _ \<Rightarrow> (if tcs \<noteq> [] then Inr ToolNode else Inr END)
           | _ \<Rightarrow> Inl AttributeError))"

section \<open>The graph and its execution\<close>

text \<open>
  The edges of the graph (agent_builder.py:130-139): the node that follows a node, given
  the state its update was merged into. \<^verbatim>\<open>should_continue\<close> is the conditional edge after
  \<^verbatim>\<open>llm_call_node\<close>. \<open>run_node\<close> calls the function registered for a node
  (agent_builder.py:123-127).
\<close>

definition next_node :: "node \<Rightarrow> AgentState \<Rightarrow> error + node" where
  "next_node n state =
     (case n of
        RuntimeLoadNode \<Rightarrow> Inr DeleteToolMessageNode
      | DeleteToolMessageNode \<Rightarrow> Inr SummarizeConversationNode
      | SummarizeConversationNode \<Rightarrow> Inr LlmCallNode
      | LlmCallNode \<Rightarrow> should_continue state
      | ToolNode \<Rightarrow> Inr LlmCallNode
      | END \<Rightarrow> Inr END)"

definition run_node :: "env \<Rightarrow> string \<Rightarrow> node \<Rightarrow> AgentState \<Rightarrow> error + partial_update" where
  "run_node E thread_id n state =
     (case n of
        RuntimeLoadNode \<Rightarrow> runtime_load_node state thread_id
      | DeleteToolMessageNode \<Rightarrow> Inr (delete_tool_message_node state)
      | SummarizeConversationNode \<Rightarrow> summarize_conversation_node E state
      | LlmCallNode \<Rightarrow> llm_call_node E state
      | ToolNode \<Rightarrow> tool_node E state
      | END \<Rightarrow> Inr no_update)"

text \<open>
  Modelled from the spec: the executor of the compiled graph and its checkpointer
  (agent_builder.py:142-144 hands the graph to langgraph with a MongoDB saver; neither is
  in the sources). After section 4.1 and the data model: a checkpoint is a snapshot of the
  state with the node to run next and a sequence number; a step runs that node, merges its
  partial update, takes the routing decision on the merged state and persists the new
  checkpoint before the next step; the store of a thread keeps its checkpoints, the most
  recent first. A turn starts by merging the caller's input into the latest state.
\<close>

record checkpoint =
  cp_state :: AgentState
  cp_next :: node
  cp_step :: nat

definition step :: "env \<Rightarrow> string \<Rightarrow> checkpoint \<Rightarrow> error + checkpoint" where
  "step E thread_id cp =
     (case run_node E thread_id (cp_next cp) (cp_state cp) of
        Inl e \<Rightarrow> Inl e
      | Inr upd \<Rightarrow>
          (case apply_update (uuid4 E (cp_step cp)) (cp_state cp) upd of
             Inl e \<Rightarrow> Inl e
           | Inr state' \<Rightarrow>
               (case next_node (cp_next cp) state' of
                  Inl e \<Rightarrow> Inl e
                | Inr n' \<Rightarrow>
                    Inr \<lparr>cp_state = state', cp_next = n', cp_step = Suc (cp_step cp)\<rparr>)))"

text \<open>
  A run ends with the turn finished, with a step's error, or interrupted: the process
  stopped (here: the fuel ran out) with the store as the last step left it.
\<close>

datatype outcome =
    Finished (store_of: "checkpoint list")
  | Failed error (store_of: "checkpoint list")
  | Interrupted (store_of: "checkpoint list")

fun run :: "env \<Rightarrow> string \<Rightarrow> nat \<Rightarrow> checkpoint \<Rightarrow> checkpoint list \<Rightarrow> outcome" where
  "run E thread_id 0 cp older =
     (if cp_next cp = END then Finished (cp # older) else Interrupted (cp # older))"
| "run E thread_id (Suc fuel) cp older =
     (if cp_next cp = END then Finished (cp # older)
      else case step E thread_id cp of
             Inl e \<Rightarrow> Failed e (cp # older)
           | Inr cp' \<Rightarrow> run E thread_id fuel cp' (cp # older))"

text \<open>
  A turn merges the input into the latest state (the empty state for a new thread),
  persists it and runs the graph from its first node.
\<close>

definition empty_state :: AgentState where
  "empty_state = \<lparr>messages = [], current_user_id = None, current_user_name = None,
     current_session_id = None, current_summary = None\<rparr>"

definition begin_turn ::
  "env \<Rightarrow> checkpoint list \<Rightarrow> partial_update \<Rightarrow> error + checkpoint" where
  "begin_turn E store input =
     (let state = (case store of [] \<Rightarrow> empty_state | cp # _ \<Rightarrow> cp_state cp);
          k = (case store of [] \<Rightarrow> 0 | cp # _ \<Rightarrow> cp_step cp)
      in case apply_update (uuid4 E k) state input of
           Inl e \<Rightarrow> Inl e
         | Inr state' \<Rightarrow> Inr \<lparr>cp_state = state', cp_next = RuntimeLoadNode, cp_step = Suc k\<rparr>)"

definition run_turn ::
  "env \<Rightarrow> string \<Rightarrow> nat \<Rightarrow> checkpoint list \<Rightarrow> partial_update \<Rightarrow> outcome" where
  "run_turn E thread_id fuel store input =
     (case begin_turn E store input of
        Inl e \<Rightarrow> Failed e store
      | Inr cp \<Rightarrow> run E thread_id fuel cp store)"

section \<open>The words of the specification\<close>

text \<open>
  A tool artifact, in the words of section 4.3 of the specification: a tool-result message,
  or an assistant message that carries tool-call requests.
\<close>

definition tool_artifact :: "message \<Rightarrow> bool" where
  "tool_artifact m =
     (case m of
        ToolMessage _ _ _ \<Rightarrow> True
      | AIMessage _ tcs _ \<Rightarrow> tcs \<noteq> []
      | _ \<Rightarrow> False)"

text \<open>
  The tool registry's \<^verbatim>\<open>invoke(name, arguments)\<close> of section 6: the result text, or a failure
  for a name that is not registered or a tool that raises.
\<close>

definition registry_invoke ::
  "(string \<rightharpoonup> ((string \<times> string) list \<Rightarrow> string + string)) \<Rightarrow> tool_call \<Rightarrow> error + string"
  where
  "registry_invoke tm tc =
     (case tm (tc_name tc) of
        None \<Rightarrow> Inl KeyError
      | Some tool \<Rightarrow>
          (case tool (tc_args tc) of
             Inl e \<Rightarrow> Inl (ToolException e)
           | Inr observation \<Rightarrow> Inr observation))"

text \<open>
  The tool-result messages for a list of tool calls that all succeed: one for each call, in
  the order of the calls, with the call's id as its join key.
\<close>

definition tool_results ::
  "(string \<rightharpoonup> ((string \<times> string) list \<Rightarrow> string + string)) \<Rightarrow> tool_call list \<Rightarrow> message list"
  where
  "tool_results tm tcs =
     map (\<lambda>tc. ToolMessage (projr (registry_invoke tm tc)) (tc_id tc) None) tcs"

text \<open>Every message of a state of the graph has an id: the merge gives one to each.\<close>

definition ids_present :: "message list \<Rightarrow> bool" where
  "ids_present ms = (list_all (\<lambda>m. m_id m \<noteq> None) ms)"

section \<open>An example environment\<close>

text \<open>
  The collaborators of the end-to-end scenario of section 8: asked what 12 * 7 is, the
  model requests the tool \<^verbatim>\<open>multiply\<close> once and, with the tool's result as the last message
  of its prompt, answers 84. The token counter and the summary the summarizing model
  returns are parameters; the ids drawn in a step are distinct and differ from step to
  step.
\<close>

definition stub_model :: "message list \<Rightarrow> string + completion" where
  "stub_model prompt =
     (case last prompt of
        ToolMessage _ _ _ \<Rightarrow> Inr (Completion ''84'' [] None)
      | _ \<Rightarrow>
          Inr (Completion [] [ToolCall ''multiply'' [(''a'', ''12''), (''b'', ''7'')] ''call_1'']
                 None))"

definition stub_multiply :: "(string \<times> string) list \<Rightarrow> string + string" where
  "stub_multiply args = Inr ''84''"

definition stub_uuid4 :: "nat \<Rightarrow> nat \<Rightarrow> string" where
  "stub_uuid4 k j = replicate (Suc k) CHR ''u'' @ replicate j CHR ''x''"

definition stub_env :: "nat \<Rightarrow> string \<Rightarrow> env" where
  "stub_env tokens summary =
     \<lparr>count_tokens_approximately = (\<lambda>_. tokens),
      qwen3_8b = (\<lambda>_. Inr (Completion summary [] None)),
      qwen3_8b_with_tools = stub_model,
      tool_map = [''multiply'' \<mapsto> stub_multiply],
      SystemPrompt = SystemMessage ''system'' None,
      uuid4 = stub_uuid4\<rparr>"

definition question :: AgentState where
  "question = empty_state\<lparr>messages := [HumanMessage ''what is 12 * 7?'' (Some ''m1'')]\<rparr>"

text \<open>The messages of the thread when that turn is over.\<close>

definition answered :: AgentState where
  "answered = empty_state\<lparr>messages :=
     [HumanMessage ''what is 12 * 7?'' (Some ''m1''),
      AIMessage [] [ToolCall ''multiply'' [(''a'', ''12''), (''b'', ''7'')] ''call_1''] (Some ''m2''),
      ToolMessage ''84'' ''call_1'' (Some ''m3''),
      AIMessage ''84'' [] (Some ''m4'')]\<rparr>"

text \<open>The messages of the thread when the model has asked for the tool.\<close>

definition asked :: AgentState where
  "asked = empty_state\<lparr>messages :=
     [HumanMessage ''what is 12 * 7?'' (Some ''m1''),
      AIMessage [] [ToolCall ''multiply'' [(''a'', ''12''), (''b'', ''7'')] ''call_1''] (Some ''m2'')]\<rparr>"

text \<open>
  The input of that turn as \<^verbatim>\<open>chat\<close> passes it, and the state of a new thread of user
  \<^verbatim>\<open>u1\<close> and session \<^verbatim>\<open>s1\<close> once the input is merged and the identity is loaded.
\<close>

definition first_input :: partial_update where
  "first_input = no_update\<lparr>u_messages := Some [HumanMessage ''what is 12 * 7?'' None]\<rparr>"

definition loaded :: AgentState where
  "loaded =
     \<lparr>messages = [HumanMessage ''what is 12 * 7?'' (Some ''u'')],
      current_user_id = Some ''u1'',
      current_user_name = Some (user_name_prefix @ ''u1''),
      current_session_id = Some ''s1'',
      current_summary = Some []\<rparr>"

text \<open>
  The states that turn goes through on a new thread, and the checkpoints it persists, the
  most recent first: the input merged, the identity loaded, nothing to prune, nothing to
  compact, the model's request for the tool, the tool's result, the model's answer.
\<close>

definition fresh_thread :: AgentState where
  "fresh_thread = loaded\<lparr>current_user_id := None, current_user_name := None,
     current_session_id := None, current_summary := None\<rparr>"

definition with_request :: AgentState where
  "with_request = loaded\<lparr>messages := messages loaded @
     [AIMessage [] [ToolCall ''multiply'' [(''a'', ''12''), (''b'', ''7'')] ''call_1'']
        (Some ''uuuuu'')]\<rparr>"

definition with_result :: AgentState where
  "with_result = with_request\<lparr>messages := messages with_request @
     [ToolMessage ''84'' ''call_1'' (Some ''uuuuuu'')]\<rparr>"

definition with_answer :: AgentState where
  "with_answer = with_result\<lparr>messages := messages with_result @
     [AIMessage ''84'' [] (Some ''uuuuuuu'')]\<rparr>"

definition turn_checkpoints :: "checkpoint list" where
  "turn_checkpoints =
     [\<lparr>cp_state = with_answer, cp_next = END, cp_step = 7\<rparr>,
      \<lparr>cp_state = with_result, cp_next = LlmCallNode, cp_step = 6\<rparr>,
      \<lparr>cp_state = with_request, cp_next = ToolNode, cp_step = 5\<rparr>,
      \<lparr>cp_state = loaded, cp_next = LlmCallNode, cp_step = 4\<rparr>,
      \<lparr>cp_state = loaded, cp_next = SummarizeConversationNode, cp_step = 3\<rparr>,
      \<lparr>cp_state = loaded, cp_next = DeleteToolMessageNode, cp_step = 2\<rparr>,
      \<lparr>cp_state = fresh_thread, cp_next = RuntimeLoadNode, cp_step = 1\<rparr>]"






section \<open>Thread identifiers: theorems\<close>

lemma split_from_no_sep: "sep \<notin> set s \<Longrightarrow> split_from sep cur s = [cur @ s]"
  by (induction s arbitrary: cur) auto

lemma split_from_first:
  "sep \<notin> set a \<Longrightarrow> split_from sep cur (a @ sep # rest) = (cur @ a) # split_from sep [] rest"
  by (induction a arbitrary: cur) auto

lemma str_split_two:
  "sep \<notin> set a \<Longrightarrow> sep \<notin> set b \<Longrightarrow> str_split (a @ sep # b) sep = [a, b]"
  by (simp add: str_split_def split_from_first split_from_no_sep)

lemma length_split_from:
  "length (split_from sep cur s) = Suc (length (filter (\<lambda>c. c = sep) s))"
  by (induction s arbitrary: cur) auto

text \<open>
  Claim C7. For a thread identifier \<open>A-B\<close> whose components \<open>A\<close> and \<open>B\<close> are not empty and
  hold no \<open>-\<close>, the load-identity step returns \<open>A\<close> as the user id and \<open>B\<close> as the session
  id; and among such components the identifier determines the pair: another pair
  \<open>(A', B')\<close> has the same identifier only when it is the same pair.
\<close>

theorem thread_id_round_trip:
  assumes "A \<noteq> []" and "B \<noteq> []"
    and "CHR ''-'' \<notin> set A" and "CHR ''-'' \<notin> set B"
    and "CHR ''-'' \<notin> set A'" and "CHR ''-'' \<notin> set B'"
  shows "runtime_load_node state (format_thread_id A B) =
           Inr \<lparr>u_messages = None, u_current_user_id = Some A,
                u_current_user_name = Some (user_name_prefix @ A),
                u_current_session_id = Some B, u_current_summary = Some ''''\<rparr>
         \<and> (format_thread_id A' B' = format_thread_id A B \<longleftrightarrow> A' = A \<and> B' = B)"
proof -
  have parts: "str_split (format_thread_id A B) CHR ''-'' = [A, B]"
    using assms(3,4) by (simp add: format_thread_id_def str_split_two)
  have parts': "str_split (format_thread_id A' B') CHR ''-'' = [A', B']"
    using assms(5,6) by (simp add: format_thread_id_def str_split_two)
  have "format_thread_id A' B' = format_thread_id A B \<Longrightarrow> A' = A \<and> B' = B"
    using parts parts' by simp
  then show ?thesis
    using parts by (auto simp: runtime_load_node_def)
qed

theorem thread_id_round_trip_witness:
  "''u1'' \<noteq> [] \<and> ''s1'' \<noteq> [] \<and> CHR ''-'' \<notin> set ''u1'' \<and> CHR ''-'' \<notin> set ''s1''
   \<and> CHR ''-'' \<notin> set ''u2''
   \<and> runtime_load_node empty_state ''u1-s1'' =
        Inr \<lparr>u_messages = None, u_current_user_id = Some ''u1'',
             u_current_user_name = Some (user_name_prefix @ ''u1''),
             u_current_session_id = Some ''s1'', u_current_summary = Some ''''\<rparr>
   \<and> format_thread_id ''u2'' ''s1'' \<noteq> format_thread_id ''u1'' ''s1''"
  using thread_id_round_trip [of "''u1''" "''s1''" "''u2''" "''s1''" empty_state]
  by (simp add: format_thread_id_def)

text \<open>
  Outside that domain the identifier is ambiguous, and nothing in \<^verbatim>\<open>chat\<close> keeps a \<open>-\<close> out of
  a component.
\<close>

lemma thread_id_ambiguous:
  "format_thread_id ''a-b'' ''c'' = format_thread_id ''a'' ''b-c''"
  by (simp add: format_thread_id_def)

lemma runtime_load_node_dash:
  assumes "CHR ''-'' \<in> set tid"
  shows "\<exists>u sess rest. str_split tid CHR ''-'' = u # sess # rest
     \<and> runtime_load_node state tid =
        Inr \<lparr>u_messages = None, u_current_user_id = Some u,
             u_current_user_name = Some (user_name_prefix @ u),
             u_current_session_id = Some sess, u_current_summary = Some ''''\<rparr>"
proof -
  have "length (str_split tid CHR ''-'') \<ge> 2"
    using assms by (simp add: str_split_def length_split_from filter_empty_conv Suc_le_eq)
  then obtain u sess rest where "str_split tid CHR ''-'' = u # sess # rest"
    by (cases "str_split tid CHR ''-''"; cases "tl (str_split tid CHR ''-'')") auto
  then show ?thesis by (simp add: runtime_load_node_def)
qed

section \<open>The merge: lemmas\<close>

lemma isinstance_RemoveMessage_set_id [simp]: "isinstance_RemoveMessage (set_id i m) = isinstance_RemoveMessage m"
  by (cases m) auto

lemma m_id_set_id [simp]: "m_id (set_id i m) = Some i"
  by (cases m) auto

lemma assign_ids_all_ids:
  "\<forall>m\<in>set ms. m_id m \<noteq> None \<Longrightarrow> assign_ids uuid n ms = ms"
  by (induction ms arbitrary: n) auto


lemma length_assign_ids [simp]: "length (assign_ids uuid n ms) = length ms"
  by (induction ms arbitrary: n) (auto split: option.splits)

lemma assign_ids_not_Remove:
  "\<forall>m\<in>set ms. \<not> isinstance_RemoveMessage m \<Longrightarrow> \<forall>m\<in>set (assign_ids uuid n ms). \<not> isinstance_RemoveMessage m"
  by (induction ms arbitrary: n) (auto split: option.splits)

lemma missing_ids_all_ids: "\<forall>m\<in>set ms. m_id m \<noteq> None \<Longrightarrow> missing_ids ms = 0"
  by (simp add: missing_ids_def filter_empty_conv)

lemma dom_index: "dom (map_of (rev (zip (map m_id l) [0..<length l]))) = m_id ` set l"
proof -
  have fsts: "map fst (zip (map m_id l) [0..<length l]) = map m_id l"
    by (rule map_fst_zip) simp
  have "dom (map_of (rev (zip (map m_id l) [0..<length l])))
      = fst ` set (zip (map m_id l) [0..<length l])"
    by (simp add: dom_map_of_conv_image_fst)
  also have "\<dots> = set (map fst (zip (map m_id l) [0..<length l]))"
    by (simp only: set_map)
  also have "\<dots> = m_id ` set l"
    by (simp only: fsts set_map)
  finally show ?thesis .
qed

lemma merge_loop_removals:
  assumes "\<forall>m\<in>set right. isinstance_RemoveMessage m \<and> m_id m \<in> dom by_id"
  shows "merge_loop merged by_id R right =
           Inr (filter (\<lambda>m. m_id m \<notin> R \<union> m_id ` set right) merged)"
  using assms
proof (induction right arbitrary: R)
  case Nil
  then show ?case by simp
next
  case (Cons m ms)
  then obtain k where k: "by_id (m_id m) = Some k" by auto
  have "merge_loop merged by_id R (m # ms) = merge_loop merged by_id (insert (m_id m) R) ms"
    using Cons.prems k by simp
  also have "\<dots> = Inr (filter (\<lambda>x. m_id x \<notin> insert (m_id m) R \<union> m_id ` set ms) merged)"
    using Cons.IH Cons.prems by simp
  finally show ?case by simp
qed

lemma merge_loop_appends:
  assumes "\<forall>m\<in>set right. \<not> isinstance_RemoveMessage m \<and> m_id m \<notin> dom by_id"
    and "distinct (map m_id right)"
  shows "merge_loop merged by_id R right = Inr (filter (\<lambda>m. m_id m \<notin> R) (merged @ right))"
  using assms
proof (induction right arbitrary: merged by_id)
  case Nil
  then show ?case by simp
next
  case (Cons m ms)
  have none: "by_id (m_id m) = None" using Cons.prems(1) by auto
  have rest: "\<forall>x\<in>set ms. \<not> isinstance_RemoveMessage x \<and> m_id x \<notin> dom (by_id(m_id m \<mapsto> length merged))"
    using Cons.prems by (auto simp: image_iff)
  have "merge_loop merged by_id R (m # ms)
      = merge_loop (merged @ [m]) (by_id(m_id m \<mapsto> length merged)) R ms"
    using Cons.prems(1) none by simp
  also have "\<dots> = Inr (filter (\<lambda>x. m_id x \<notin> R) ((merged @ [m]) @ ms))"
    using Cons.prems(2) by (intro Cons.IH [OF rest]) simp
  finally show ?case by simp
qed

lemma add_messages_removals:
  assumes "\<forall>m\<in>set left. m_id m \<noteq> None" and "set sub \<subseteq> set left"
  shows "add_messages uuid left (map (\<lambda>m. RemoveMessage (m_id m)) sub) =
           Inr (filter (\<lambda>m. m_id m \<notin> m_id ` set sub) left)"
proof -
  let ?right = "map (\<lambda>m. RemoveMessage (m_id m)) sub"
  have l: "assign_ids uuid 0 left = left" using assms(1) by (rule assign_ids_all_ids)
  have "\<forall>m\<in>set ?right. m_id m \<noteq> None" using assms by auto
  then have r: "assign_ids uuid (missing_ids left) ?right = ?right" by (rule assign_ids_all_ids)
  have "\<forall>m\<in>set ?right. isinstance_RemoveMessage m
          \<and> m_id m \<in> dom (map_of (rev (zip (map m_id left) [0..<length left])))"
    unfolding dom_index using assms(2) by auto
  then have "merge_loop left (map_of (rev (zip (map m_id left) [0..<length left]))) {} ?right
     = Inr (filter (\<lambda>m. m_id m \<notin> {} \<union> m_id ` set ?right) left)"
    by (rule merge_loop_removals)
  moreover have "m_id ` set ?right = m_id ` set sub" by (auto simp: image_iff)
  ultimately show ?thesis by (simp add: add_messages_def l r)
qed

lemma add_messages_appends:
  assumes "\<forall>m\<in>set left. m_id m \<noteq> None"
    and "\<forall>m\<in>set right. \<not> isinstance_RemoveMessage m"
    and "distinct (map m_id (assign_ids uuid 0 right))"
    and "\<forall>m\<in>set (assign_ids uuid 0 right). m_id m \<notin> m_id ` set left"
  shows "add_messages uuid left right = Inr (left @ assign_ids uuid 0 right)"
proof -
  let ?right = "assign_ids uuid 0 right"
  have l: "assign_ids uuid 0 left = left" using assms(1) by (rule assign_ids_all_ids)
  have z: "missing_ids left = 0" using assms(1) by (rule missing_ids_all_ids)
  have "\<forall>m\<in>set ?right. \<not> isinstance_RemoveMessage m
          \<and> m_id m \<notin> dom (map_of (rev (zip (map m_id left) [0..<length left])))"
    unfolding dom_index using assms(4) assign_ids_not_Remove [OF assms(2)] by blast
  then have "merge_loop left (map_of (rev (zip (map m_id left) [0..<length left]))) {} ?right
     = Inr (filter (\<lambda>m. m_id m \<notin> {}) (left @ ?right))"
    using assms(3) by (rule merge_loop_appends)
  then show ?thesis by (simp add: add_messages_def l z)
qed

lemma add_messages_Nil:
  "\<forall>m\<in>set left. m_id m \<noteq> None \<Longrightarrow> add_messages uuid left [] = Inr left"
  by (simp add: add_messages_def assign_ids_all_ids)

lemma filter_ids_append:
  "distinct (map f (xs @ ys)) \<Longrightarrow> filter (\<lambda>m. f m \<notin> f ` set xs) (xs @ ys) = ys"
  by (auto simp: filter_empty_conv filter_id_conv)

lemma filter_ids_take:
  assumes "distinct (map m_id l)"
  shows "filter (\<lambda>m. m_id m \<notin> m_id ` set (take k l)) l = drop k l"
  using filter_ids_append [of m_id "take k l" "drop k l"] assms by simp

section \<open>Pruning and compaction: theorems\<close>

lemma tool_artifact_iff: "(msg_type m = ''tool'' \<or> has_tool_calls m) = tool_artifact m"
  by (cases m) (simp_all add: tool_artifact_def)

lemma apply_update_no_update: "apply_update uuid state no_update = Inr state"
  by (simp add: apply_update_def no_update_def overwrite_def)

lemma apply_update_removals:
  assumes "ids_present (messages state)" and "set sub \<subseteq> set (messages state)"
  shows "apply_update uuid state
           (no_update\<lparr>u_messages := Some (map (\<lambda>m. RemoveMessage (m_id m)) sub)\<rparr>) =
         Inr (state\<lparr>messages :=
                filter (\<lambda>m. m_id m \<notin> m_id ` set sub) (messages state)\<rparr>)"
  using assms
  by (simp add: apply_update_def no_update_def overwrite_def add_messages_removals
      ids_present_def list_all_iff)

text \<open>
  Claim C5. When the approximate token count of the messages is below 128,000, the
  compact-context step returns the empty update, and merging it leaves the whole state as
  it was: the messages, the summary and the identity fields.
\<close>

theorem compact_below_threshold:
  assumes "count_tokens_approximately E (messages state) < 128000"
  shows "summarize_conversation_node E state = Inr no_update
         \<and> apply_update uuid state no_update = Inr state"
  using assms by (simp add: summarize_conversation_node_def apply_update_no_update)

theorem compact_below_threshold_witness:
  "count_tokens_approximately (stub_env 12 ''s'') (messages question) < 128000
   \<and> summarize_conversation_node (stub_env 12 ''s'') question = Inr no_update
   \<and> apply_update (stub_uuid4 0) question no_update = Inr question"
  using compact_below_threshold [of "stub_env 12 ''s''" question "stub_uuid4 0"]
  by (simp add: stub_env_def)

text \<open>
  Claim C6. The prune step emits one removal directive for each message that is a tool
  artifact (a tool-result message, or an assistant message carrying tool-call requests),
  and for no other message. Merging its update removes the messages that carry the ids
  named; pruning the state so obtained once more emits nothing and leaves that state
  unchanged.
\<close>

theorem prune_idempotent:
  assumes "ids_present (messages state)"
  shows "delete_tool_message_node state =
           no_update\<lparr>u_messages :=
             Some (map (\<lambda>m. RemoveMessage (m_id m)) (filter tool_artifact (messages state)))\<rparr>
         \<and> (\<exists>pruned.
               apply_update uuid state (delete_tool_message_node state) = Inr pruned
               \<and> messages pruned =
                   filter (\<lambda>m. m_id m \<notin> m_id ` set (filter tool_artifact (messages state)))
                     (messages state)
               \<and> list_all (\<lambda>m. \<not> tool_artifact m) (messages pruned)
               \<and> delete_tool_message_node pruned = no_update\<lparr>u_messages := Some []\<rparr>
               \<and> apply_update uuid' pruned (delete_tool_message_node pruned) = Inr pruned)"
proof -
  let ?sub = "filter tool_artifact (messages state)"
  let ?kept = "filter (\<lambda>m. m_id m \<notin> m_id ` set ?sub) (messages state)"
  let ?pruned = "state\<lparr>messages := ?kept\<rparr>"
  have emitted: "delete_tool_message_node state =
      no_update\<lparr>u_messages := Some (map (\<lambda>m. RemoveMessage (m_id m)) ?sub)\<rparr>"
    by (simp add: delete_tool_message_node_def tool_artifact_iff)
  have first: "apply_update uuid state (delete_tool_message_node state) = Inr ?pruned"
    unfolding emitted using assms by (intro apply_update_removals) auto
  have none_left: "filter tool_artifact ?kept = []"
    by (auto simp: filter_empty_conv)
  have again: "delete_tool_message_node ?pruned = no_update\<lparr>u_messages := Some []\<rparr>"
    using none_left by (simp add: delete_tool_message_node_def tool_artifact_iff)
  have present: "ids_present (messages ?pruned)"
    using assms by (simp add: ids_present_def list_all_iff)
  have second: "apply_update uuid' ?pruned (delete_tool_message_node ?pruned) = Inr ?pruned"
    unfolding again
    using apply_update_removals [of ?pruned "[]" uuid'] present by simp
  have clean: "list_all (\<lambda>m. \<not> tool_artifact m) (messages ?pruned)"
    by (auto simp: list_all_iff)
  show ?thesis
    using emitted first again second clean by simp
qed

theorem prune_idempotent_witness:
  "ids_present (messages answered)
   \<and> (\<exists>pruned.
         apply_update (stub_uuid4 0) answered (delete_tool_message_node answered) = Inr pruned
         \<and> messages pruned =
             [HumanMessage ''what is 12 * 7?'' (Some ''m1''), AIMessage ''84'' [] (Some ''m4'')]
         \<and> apply_update (stub_uuid4 1) pruned (delete_tool_message_node pruned) = Inr pruned)"
proof -
  have present: "ids_present (messages answered)"
    by (simp add: answered_def ids_present_def)
  from prune_idempotent [OF present, of "stub_uuid4 0" "stub_uuid4 1"]
  obtain pruned where
    "apply_update (stub_uuid4 0) answered (delete_tool_message_node answered) = Inr pruned"
    "messages pruned =
       filter (\<lambda>m. m_id m \<notin> m_id ` set (filter tool_artifact (messages answered)))
         (messages answered)"
    "apply_update (stub_uuid4 1) pruned (delete_tool_message_node pruned) = Inr pruned"
    by blast
  moreover have
    "filter (\<lambda>m. m_id m \<notin> m_id ` set (filter tool_artifact (messages answered)))
       (messages answered) =
     [HumanMessage ''what is 12 * 7?'' (Some ''m1''), AIMessage ''84'' [] (Some ''m4'')]"
    by (simp add: answered_def tool_artifact_def)
  ultimately show ?thesis using present by auto
qed

lemma apply_update_compaction:
  assumes "ids_present (messages state)" and "set sub \<subseteq> set (messages state)"
  shows "apply_update uuid state
           (no_update\<lparr>u_current_summary := Some text,
                       u_messages := Some (map (\<lambda>m. RemoveMessage (m_id m)) sub)\<rparr>) =
         Inr (state\<lparr>messages := filter (\<lambda>m. m_id m \<notin> m_id ` set sub) (messages state),
                     current_summary := Some text\<rparr>)"
  using assms
  by (simp add: apply_update_def no_update_def overwrite_def add_messages_removals
      ids_present_def list_all_iff)

text \<open>
  Claim C4, as amended. When the approximate token count is at or above 128,000 and the
  summarizing model answers, the compact-context step sets the summary to the content of
  the answer, whatever it is, and emits a removal for every message except the two most
  recent. With every message carrying an id of its own, merging that update leaves the
  last two messages, or the whole sequence when it had fewer than two, and changes no
  identity field.
\<close>

theorem compact_above_threshold:
  assumes "128000 \<le> count_tokens_approximately E (messages state)"
    and "qwen3_8b E (messages state @ [HumanMessage (summary_message state) None]) = Inr response"
    and "ids_present (messages state)"
    and "distinct (map m_id (messages state))"
  shows "(\<exists>upd. summarize_conversation_node E state = Inr upd
              \<and> u_current_summary upd = Some (c_content response)
              \<and> u_messages upd = Some (map (\<lambda>m. RemoveMessage (m_id m))
                    (take (length (messages state) - 2) (messages state)))
              \<and> apply_update uuid state upd =
                  Inr (state\<lparr>messages := drop (length (messages state) - 2) (messages state),
                         current_summary := Some (c_content response)\<rparr>))
         \<and> length (drop (length (messages state) - 2) (messages state)) =
             min 2 (length (messages state))"
proof -
  let ?old = "take (length (messages state) - 2) (messages state)"
  let ?upd = "no_update\<lparr>u_current_summary := Some (c_content response),
                u_messages := Some (map (\<lambda>m. RemoveMessage (m_id m)) ?old)\<rparr>"
  have node: "summarize_conversation_node E state = Inr ?upd"
    using assms(1,2) by (simp add: summarize_conversation_node_def)
  have "set ?old \<subseteq> set (messages state)"
    by (rule set_take_subset)
  then have "apply_update uuid state ?upd =
      Inr (state\<lparr>messages := filter (\<lambda>m. m_id m \<notin> m_id ` set ?old) (messages state),
             current_summary := Some (c_content response)\<rparr>)"
    using assms(3) by (rule apply_update_compaction [rotated])
  then have merged: "apply_update uuid state ?upd =
      Inr (state\<lparr>messages := drop (length (messages state) - 2) (messages state),
             current_summary := Some (c_content response)\<rparr>)"
    using assms(4) by (simp only: filter_ids_take)
  have "length (drop (length (messages state) - 2) (messages state)) =
      min 2 (length (messages state))"
    by simp
  with node merged show ?thesis by (simp add: no_update_def)
qed

theorem compact_above_threshold_witness:
  "128000 \<le> count_tokens_approximately (stub_env 128000 ''sum'') (messages answered)
   \<and> ids_present (messages answered) \<and> distinct (map m_id (messages answered))
   \<and> (\<exists>upd. summarize_conversation_node (stub_env 128000 ''sum'') answered = Inr upd
         \<and> apply_update (stub_uuid4 0) answered upd =
             Inr (answered\<lparr>messages :=
                    [ToolMessage ''84'' ''call_1'' (Some ''m3''), AIMessage ''84'' [] (Some ''m4'')],
                    current_summary := Some ''sum''\<rparr>))"
proof -
  have a: "128000 \<le> count_tokens_approximately (stub_env 128000 ''sum'') (messages answered)"
    by (simp add: stub_env_def)
  have b: "qwen3_8b (stub_env 128000 ''sum'')
      (messages answered @ [HumanMessage (summary_message answered) None]) =
      Inr (Completion ''sum'' [] None)"
    by (simp add: stub_env_def)
  have c: "ids_present (messages answered)"
    by (simp add: answered_def ids_present_def)
  have d: "distinct (map m_id (messages answered))"
    by (simp add: answered_def)
  have e: "drop (length (messages answered) - 2) (messages answered) =
      [ToolMessage ''84'' ''call_1'' (Some ''m3''), AIMessage ''84'' [] (Some ''m4'')]"
    by (simp add: answered_def)
  show ?thesis
    using compact_above_threshold [OF a b c d, of "stub_uuid4 0"] a c d
    by (auto simp: e)
qed

text \<open>
  The claim as it was stated fails on a thread of one long message whose summary comes back
  empty: one message remains, not two, and the new summary is empty.
\<close>

theorem compact_above_threshold_counterexample:
  "128000 \<le> count_tokens_approximately (stub_env 128000 []) (messages question)
   \<and> (\<exists>upd after. summarize_conversation_node (stub_env 128000 []) question = Inr upd
         \<and> apply_update (stub_uuid4 0) question upd = Inr after
         \<and> length (messages after) = 1
         \<and> current_summary after = Some [])"
  by (simp add: stub_env_def summarize_conversation_node_def question_def empty_state_def
      apply_update_def no_update_def overwrite_def add_messages_def missing_ids_def)

section \<open>Routing and rejection: theorems\<close>

text \<open>
  Claim C3. The route step returns a decision and nothing else, and the decision depends
  on the last message only: with an assistant message last, it is tool execution when the
  message carries one or more tool calls and termination when its list of tool calls is
  empty, and any state with the same last message gets the same decision.
\<close>

theorem route_by_last_message:
  assumes "messages state \<noteq> []" and "last (messages state) = AIMessage c tcs i"
    and "messages state' \<noteq> []" and "last (messages state') = last (messages state)"
  shows "should_continue state = Inr (if tcs \<noteq> [] then ToolNode else END)
         \<and> should_continue state' = should_continue state"
  using assms by (cases "messages state"; cases "messages state'") (auto simp: should_continue_def)

theorem route_by_last_message_witness:
  "messages answered \<noteq> []
   \<and> last (messages answered) = AIMessage ''84'' [] (Some ''m4'')
   \<and> messages (question\<lparr>messages := [AIMessage ''84'' [] (Some ''m4'')]\<rparr>) \<noteq> []
   \<and> should_continue answered = Inr END
   \<and> should_continue (question\<lparr>messages := [AIMessage ''84'' [] (Some ''m4'')]\<rparr>) = Inr END"
  using route_by_last_message [of answered "''84''" "[]" "Some ''m4''"
      "question\<lparr>messages := [AIMessage ''84'' [] (Some ''m4'')]\<rparr>"]
  by (simp add: answered_def)

text \<open>
  Claim C8, as amended. \<^verbatim>\<open>chat\<close> rejects a request before the agent runs in two cases: a
  user or session header that is missing or empty (error \<^verbatim>\<open>invalid user\<close>), and an empty
  message (error \<^verbatim>\<open>invalid message\<close>). No other request is rejected: the check does not
  look at the delimiter, the agent starts on the thread identifier \<^verbatim>\<open>user-session\<close>, and,
  the identifier holding the delimiter, the load-identity step finds a first and a second
  component in it and does not raise.
\<close>

theorem chat_rejects_before_agent:
  "(falsy x_user \<or> falsy x_sess \<longrightarrow>
      chat x_user x_sess message = JSONResponse (- 1) ''invalid user'')
   \<and> (\<not> falsy x_user \<and> \<not> falsy x_sess \<and> message = [] \<longrightarrow>
      chat x_user x_sess message = JSONResponse (- 1) ''invalid message'')
   \<and> (\<not> falsy x_user \<and> \<not> falsy x_sess \<and> message \<noteq> [] \<longrightarrow>
      (\<exists>thread_id u sess rest.
         chat x_user x_sess message =
           EventSourceResponse thread_id (no_update\<lparr>u_messages := Some [HumanMessage message None]\<rparr>)
         \<and> thread_id = format_thread_id (the x_user) (the x_sess)
         \<and> str_split thread_id CHR ''-'' = u # sess # rest
         \<and> runtime_load_node state thread_id =
             Inr \<lparr>u_messages = None, u_current_user_id = Some u,
                  u_current_user_name = Some (user_name_prefix @ u),
                  u_current_session_id = Some sess, u_current_summary = Some ''''\<rparr>))"
proof -
  have "CHR ''-'' \<in> set (format_thread_id (the x_user) (the x_sess))"
    by (simp add: format_thread_id_def)
  from runtime_load_node_dash [OF this, of state]
  show ?thesis by (auto simp: chat_def)
qed

theorem chat_rejects_before_agent_witness:
  "chat None (Some ''s1'') ''hi'' = JSONResponse (- 1) ''invalid user''
   \<and> chat (Some ''u1'') (Some '''') ''hi'' = JSONResponse (- 1) ''invalid user''
   \<and> chat (Some ''u1'') (Some ''s1'') [] = JSONResponse (- 1) ''invalid message''
   \<and> chat (Some ''u1'') (Some ''s1'') ''hi'' =
       EventSourceResponse ''u1-s1'' (no_update\<lparr>u_messages := Some [HumanMessage ''hi'' None]\<rparr>)"
  using chat_rejects_before_agent [of None "Some ''s1''" "''hi''" empty_state]
    chat_rejects_before_agent [of "Some ''u1''" "Some ''''" "''hi''" empty_state]
    chat_rejects_before_agent [of "Some ''u1''" "Some ''s1''" "[]" empty_state]
    chat_rejects_before_agent [of "Some ''u1''" "Some ''s1''" "''hi''" empty_state]
  by (simp add: falsy_def format_thread_id_def)

text \<open>
  The claim as it was stated fails for a user id that holds the delimiter: the identifier
  has three components, the request is accepted, and the load-identity step runs and
  returns the first two of them.
\<close>

theorem chat_rejects_before_agent_counterexample:
  "chat (Some ''a-b'') (Some ''c'') ''hi'' =
     EventSourceResponse ''a-b-c'' (no_update\<lparr>u_messages := Some [HumanMessage ''hi'' None]\<rparr>)
   \<and> str_split ''a-b-c'' CHR ''-'' = [''a'', ''b'', ''c'']
   \<and> runtime_load_node empty_state ''a-b-c'' =
       Inr \<lparr>u_messages = None, u_current_user_id = Some ''a'',
            u_current_user_name = Some (user_name_prefix @ ''a''),
            u_current_session_id = Some ''b'', u_current_summary = Some ''''\<rparr>"
  by (simp add: chat_def falsy_def format_thread_id_def str_split_def runtime_load_node_def)

section \<open>Tool invocation: theorems\<close>

lemma tool_loop_ok:
  assumes "\<forall>tc\<in>set tcs. \<exists>obs. registry_invoke tm tc = Inr obs"
  shows "tool_loop tm tcs acc = Inr (acc @ tool_results tm tcs)"
  using assms
proof (induction tcs arbitrary: acc)
  case Nil
  then show ?case by (simp add: tool_results_def)
next
  case (Cons tc tcs)
  from Cons.prems obtain obs where obs: "registry_invoke tm tc = Inr obs" by auto
  then obtain tool where tool: "tm (tc_name tc) = Some tool" "tool (tc_args tc) = Inr obs"
    by (auto simp: registry_invoke_def split: option.splits sum.splits)
  have "tool_loop tm (tc # tcs) acc = tool_loop tm tcs (acc @ [ToolMessage obs (tc_id tc) None])"
    using tool by simp
  also have "\<dots> = Inr ((acc @ [ToolMessage obs (tc_id tc) None]) @ tool_results tm tcs)"
    using Cons.prems by (intro Cons.IH) simp
  finally show ?case using obs by (simp add: tool_results_def)
qed

lemma tool_loop_fails:
  assumes "\<exists>tc\<in>set tcs. \<exists>e. registry_invoke tm tc = Inl e"
  shows "\<exists>e. tool_loop tm tcs acc = Inl e \<and> (e = KeyError \<or> (\<exists>t. e = ToolException t))"
  using assms
proof (induction tcs arbitrary: acc)
  case Nil
  then show ?case by simp
next
  case (Cons tc tcs)
  show ?case
  proof (cases "registry_invoke tm tc")
    case (Inl e)
    then show ?thesis
      by (auto simp: registry_invoke_def split: option.splits sum.splits)
  next
    case (Inr obs)
    with Cons.prems have "\<exists>tc\<in>set tcs. \<exists>e. registry_invoke tm tc = Inl e" by auto
    from Cons.IH [OF this, of "acc @ [ToolMessage obs (tc_id tc) None]"] Inr show ?thesis
      by (auto simp: registry_invoke_def split: option.splits sum.splits)
  qed
qed

lemma upt_shift: "[n..<Suc (n + k)] = n # [Suc n..<Suc (n + k)]"
  by (subst upt_rec) simp

lemma m_id_assign_ids_None:
  "\<forall>m\<in>set ms. m_id m = None \<Longrightarrow>
   map m_id (assign_ids uuid n ms) = map (\<lambda>j. Some (uuid j)) [n..<n + length ms]"
proof (induction ms arbitrary: n)
  case Nil
  then show ?case by simp
next
  case (Cons m ms)
  then have "map m_id (assign_ids uuid (Suc n) ms)
      = map (\<lambda>j. Some (uuid j)) [Suc n..<Suc (n + length ms)]"
    by simp
  then show ?case
    using Cons.prems by (simp add: upt_shift del: upt_Suc)
qed

lemma length_tool_results: "length (tool_results tm tcs) = length tcs"
  by (simp add: tool_results_def)

lemma m_id_tool_results: "\<forall>m\<in>set (tool_results tm tcs). m_id m = None"
  by (simp add: tool_results_def)

lemma tool_call_id_set_id [simp]:
  "tool_call_id (set_id i (ToolMessage c t x)) = t"
  by simp

lemma tool_call_id_assigned:
  "map tool_call_id (assign_ids uuid n (tool_results tm tcs)) = map tc_id tcs"
  by (induction tcs arbitrary: n) (auto simp: tool_results_def)

lemma content_assigned:
  "map content (assign_ids uuid n (tool_results tm tcs)) =
     map (\<lambda>tc. projr (registry_invoke tm tc)) tcs"
  by (induction tcs arbitrary: n) (auto simp: tool_results_def)

lemma msg_type_assigned:
  "m \<in> set (assign_ids uuid n (tool_results tm tcs)) \<Longrightarrow> msg_type m = ''tool''"
  by (induction tcs arbitrary: n) (auto simp: tool_results_def)

lemma exactly_one:
  "distinct xs \<Longrightarrow> x \<in> set xs \<Longrightarrow> length (filter (\<lambda>y. y = x) xs) = 1"
  by (induction xs) (auto simp: filter_empty_conv)

text \<open>
  Claim C2, as amended. When every tool call of the latest assistant message names a
  registered tool and every invocation returns, the invoke-tool step emits one tool-result
  message for each call, in the order of the calls, each with its call's id as
  \<^verbatim>\<open>tool_call_id\<close>; the merge appends them to the messages (the ids drawn for them being
  new), so that a call whose id no other call shares has exactly one tool-result message.
  When a tool is not registered or an invocation raises, the step raises (\<^verbatim>\<open>KeyError\<close>, or
  the tool's exception) and emits no message at all.
\<close>

theorem tool_results_join:
  assumes "messages state \<noteq> []" and "last (messages state) = AIMessage c tcs i"
    and "ids_present (messages state)"
    and "distinct (map uuid [0..<length tcs])"
    and "\<forall>j<length tcs. Some (uuid j) \<notin> m_id ` set (messages state)"
  shows
    "((\<forall>tc\<in>set tcs. \<exists>obs. registry_invoke (tool_map E) tc = Inr obs) \<longrightarrow>
        tool_node E state = Inr (no_update\<lparr>u_messages := Some (tool_results (tool_map E) tcs)\<rparr>)
        \<and> (\<exists>appended.
              apply_update uuid state
                (no_update\<lparr>u_messages := Some (tool_results (tool_map E) tcs)\<rparr>) =
                Inr (state\<lparr>messages := messages state @ appended\<rparr>)
              \<and> map tool_call_id appended = map tc_id tcs
              \<and> map content appended = map (\<lambda>tc. projr (registry_invoke (tool_map E) tc)) tcs
              \<and> list_all (\<lambda>m. msg_type m = ''tool'') appended
              \<and> (distinct (map tc_id tcs) \<longrightarrow>
                   (\<forall>tc\<in>set tcs.
                      length (filter (\<lambda>m. tool_call_id m = tc_id tc) appended) = 1))))
     \<and> ((\<exists>tc\<in>set tcs. \<exists>e. registry_invoke (tool_map E) tc = Inl e) \<longrightarrow>
          (\<exists>e. tool_node E state = Inl e \<and> (e = KeyError \<or> (\<exists>t. e = ToolException t))))"
proof (intro conjI impI)
  assume ok: "\<forall>tc\<in>set tcs. \<exists>obs. registry_invoke (tool_map E) tc = Inr obs"
  let ?results = "tool_results (tool_map E) tcs"
  let ?appended = "assign_ids uuid 0 ?results"
  show "tool_node E state = Inr (no_update\<lparr>u_messages := Some ?results\<rparr>)"
    using assms(1,2) tool_loop_ok [OF ok, of "[]"]
    by (cases "messages state") (simp_all add: tool_node_def)
  have present: "\<forall>m\<in>set (messages state). m_id m \<noteq> None"
    using assms(3) by (simp add: ids_present_def list_all_iff)
  have not_remove: "\<forall>m\<in>set ?results. \<not> isinstance_RemoveMessage m"
    by (simp add: tool_results_def)
  have ids: "map m_id ?appended = map (\<lambda>j. Some (uuid j)) [0..<length tcs]"
    using m_id_assign_ids_None [OF m_id_tool_results, where uuid = uuid and n = 0]
    by (simp add: length_tool_results)
  have "distinct (map (\<lambda>j. Some (uuid j)) [0..<length tcs])"
    using assms(4) by (simp add: distinct_map inj_on_def)
  then have d: "distinct (map m_id ?appended)"
    by (simp only: ids)
  have "set (map m_id ?appended) \<inter> m_id ` set (messages state) = {}"
    unfolding ids using assms(5) by auto
  then have fresh: "\<forall>m\<in>set ?appended. m_id m \<notin> m_id ` set (messages state)"
    by auto
  have merged: "add_messages uuid (messages state) ?results = Inr (messages state @ ?appended)"
    using present not_remove d fresh by (rule add_messages_appends)
  have upd: "apply_update uuid state (no_update\<lparr>u_messages := Some ?results\<rparr>) =
      Inr (state\<lparr>messages := messages state @ ?appended\<rparr>)"
    by (simp add: apply_update_def merged no_update_def overwrite_def)
  have join: "map tool_call_id ?appended = map tc_id tcs"
    by (rule tool_call_id_assigned)
  have one: "length (filter (\<lambda>m. tool_call_id m = tc_id tc) ?appended) = 1"
    if "distinct (map tc_id tcs)" and "tc \<in> set tcs" for tc
  proof -
    have "length (filter (\<lambda>m. tool_call_id m = tc_id tc) ?appended)
        = length (filter (\<lambda>y. y = tc_id tc) (map tool_call_id ?appended))"
      by (simp add: filter_map comp_def)
    also have "\<dots> = 1"
      unfolding join using that by (intro exactly_one) auto
    finally show ?thesis .
  qed
  have tools: "list_all (\<lambda>m. msg_type m = ''tool'') ?appended"
    by (simp add: list_all_iff msg_type_assigned)
  show "\<exists>appended.
      apply_update uuid state (no_update\<lparr>u_messages := Some ?results\<rparr>) =
        Inr (state\<lparr>messages := messages state @ appended\<rparr>)
      \<and> map tool_call_id appended = map tc_id tcs
      \<and> map content appended = map (\<lambda>tc. projr (registry_invoke (tool_map E) tc)) tcs
      \<and> list_all (\<lambda>m. msg_type m = ''tool'') appended
      \<and> (distinct (map tc_id tcs) \<longrightarrow>
           (\<forall>tc\<in>set tcs. length (filter (\<lambda>m. tool_call_id m = tc_id tc) appended) = 1))"
    using upd join content_assigned [where uuid = uuid and n = 0] tools one
    by (intro exI [of _ ?appended]) simp
next
  assume "\<exists>tc\<in>set tcs. \<exists>e. registry_invoke (tool_map E) tc = Inl e"
  from tool_loop_fails [OF this, of "[]"]
  show "\<exists>e. tool_node E state = Inl e \<and> (e = KeyError \<or> (\<exists>t. e = ToolException t))"
    using assms(1,2) by (cases "messages state") (auto simp: tool_node_def)
qed

theorem tool_results_join_witness:
  "messages asked \<noteq> [] \<and> ids_present (messages asked)
   \<and> tool_node (stub_env 12 ''s'') asked =
       Inr (no_update\<lparr>u_messages := Some [ToolMessage ''84'' ''call_1'' None]\<rparr>)
   \<and> (\<exists>appended.
         apply_update (stub_uuid4 0) asked
           (no_update\<lparr>u_messages := Some [ToolMessage ''84'' ''call_1'' None]\<rparr>) =
           Inr (asked\<lparr>messages := messages asked @ appended\<rparr>)
         \<and> map tool_call_id appended = [''call_1'']
         \<and> map content appended = [''84'']
         \<and> length (filter (\<lambda>m. tool_call_id m = ''call_1'') appended) = 1)
   \<and> (\<exists>e. tool_node (stub_env 12 ''s''\<lparr>tool_map := [''multiply'' \<mapsto> (\<lambda>_. Inl ''boom'')]\<rparr>) asked
            = Inl e)"
proof -
  let ?tc = "ToolCall ''multiply'' [(''a'', ''12''), (''b'', ''7'')] ''call_1''"
  let ?E = "stub_env 12 ''s''"
  let ?E' = "stub_env 12 ''s''\<lparr>tool_map := [''multiply'' \<mapsto> (\<lambda>_. Inl ''boom'')]\<rparr>"
  have h1: "messages asked \<noteq> []"
    by (simp add: asked_def)
  have h2: "last (messages asked) = AIMessage [] [?tc] (Some ''m2'')"
    by (simp add: asked_def)
  have h3: "ids_present (messages asked)"
    by (simp add: asked_def ids_present_def)
  have h4: "distinct (map (stub_uuid4 0) [0..<length [?tc]])"
    by simp
  have h5: "\<forall>j<length [?tc]. Some (stub_uuid4 0 j) \<notin> m_id ` set (messages asked)"
    by (simp add: asked_def stub_uuid4_def)
  have ok: "\<forall>tc\<in>set [?tc]. \<exists>obs. registry_invoke (tool_map ?E) tc = Inr obs"
    by (simp add: registry_invoke_def stub_env_def stub_multiply_def)
  have bad: "\<exists>tc\<in>set [?tc]. \<exists>e. registry_invoke (tool_map ?E') tc = Inl e"
    by (simp add: registry_invoke_def)
  have results: "tool_results (tool_map ?E) [?tc] = [ToolMessage ''84'' ''call_1'' None]"
    by (simp add: tool_results_def registry_invoke_def stub_env_def stub_multiply_def)
  have obs: "projr (registry_invoke (tool_map ?E) ?tc) = ''84''"
    by (simp add: registry_invoke_def stub_env_def stub_multiply_def)
  from tool_results_join [OF h1 h2 h3 h4 h5, of ?E] ok
  have good: "tool_node ?E asked = Inr (no_update\<lparr>u_messages := Some [ToolMessage ''84'' ''call_1'' None]\<rparr>)
     \<and> (\<exists>appended.
         apply_update (stub_uuid4 0) asked
           (no_update\<lparr>u_messages := Some [ToolMessage ''84'' ''call_1'' None]\<rparr>) =
           Inr (asked\<lparr>messages := messages asked @ appended\<rparr>)
         \<and> map tool_call_id appended = [''call_1'']
         \<and> map content appended = [''84'']
         \<and> length (filter (\<lambda>m. tool_call_id m = ''call_1'') appended) = 1)"
    unfolding results by (auto simp: obs)
  from tool_results_join [OF h1 h2 h3 h4 h5, of ?E'] bad
  have "\<exists>e. tool_node ?E' asked = Inl e"
    by blast
  with good h1 h3 show ?thesis by blast
qed

text \<open>
  The claim as it was stated fails when the model names a tool that is not registered:
  \<^verbatim>\<open>tool_map[...]\<close> raises, the step returns no tool-result message, and the run of the
  graph ends with that error.
\<close>

theorem tool_results_join_counterexample:
  "tool_map (stub_env 12 ''s'') ''get_weather'' = None
   \<and> tool_node (stub_env 12 ''s'')
       (empty_state\<lparr>messages :=
          [HumanMessage ''will it rain?'' (Some ''m1''),
           AIMessage [] [ToolCall ''get_weather'' [] ''call_9''] (Some ''m2'')]\<rparr>) = Inl KeyError
   \<and> run (stub_env 12 ''s'') ''u1-s1'' 5
       \<lparr>cp_state = empty_state\<lparr>messages :=
          [HumanMessage ''will it rain?'' (Some ''m1''),
           AIMessage [] [ToolCall ''get_weather'' [] ''call_9''] (Some ''m2'')]\<rparr>,
        cp_next = ToolNode, cp_step = 4\<rparr> [] =
       Failed KeyError
         [\<lparr>cp_state = empty_state\<lparr>messages :=
            [HumanMessage ''will it rain?'' (Some ''m1''),
             AIMessage [] [ToolCall ''get_weather'' [] ''call_9''] (Some ''m2'')]\<rparr>,
           cp_next = ToolNode, cp_step = 4\<rparr>]"
  by (simp add: stub_env_def tool_node_def empty_state_def step_def run_node_def
      eval_nat_numeral)

section \<open>The graph: lemmas\<close>

lemma apply_update_fields:
  assumes "apply_update uuid state upd = Inr state'"
  shows "current_summary state' = overwrite (current_summary state) (u_current_summary upd)"
    and "u_messages upd = None \<Longrightarrow> messages state' = messages state"
    and "u_messages upd = Some new \<Longrightarrow> add_messages uuid (messages state) new = Inr (messages state')"
  using assms by (auto simp: apply_update_def split: option.splits sum.splits)




lemma run_store_invariant:
  assumes "\<And>c c'. P c \<Longrightarrow> cp_next c \<noteq> END \<Longrightarrow> step E thread_id c = Inr c' \<Longrightarrow> P c'"
    and "P cp"
  shows "\<forall>c\<in>set (store_of (run E thread_id fuel cp older)). c \<in> set older \<or> P c"
  using assms(2)
proof (induction fuel arbitrary: cp older)
  case 0
  then show ?case by simp
next
  case (Suc fuel)
  show ?case
  proof (cases "cp_next cp = END")
    case True
    with Suc.prems show ?thesis by simp
  next
    case False
    show ?thesis
    proof (cases "step E thread_id cp")
      case (Inl e)
      with False Suc.prems show ?thesis by simp
    next
      case (Inr cp')
      have "P cp'" using assms(1) Suc.prems False Inr by blast
      from Suc.IH [OF this, of "cp # older"] Suc.prems
      show ?thesis using False Inr by auto
    qed
  qed
qed

lemma step_cases:
  assumes "step E thread_id c = Inr c'"
  obtains upd where "run_node E thread_id (cp_next c) (cp_state c) = Inr upd"
    and "apply_update (uuid4 E (cp_step c)) (cp_state c) upd = Inr (cp_state c')"
    and "next_node (cp_next c) (cp_state c') = Inr (cp_next c')"
    and "cp_step c' = Suc (cp_step c)"
  using assms by (auto simp: step_def split: sum.splits)


section \<open>The turn: theorems\<close>

lemma runtime_load_node_summary:
  "runtime_load_node state thread_id = Inr upd \<Longrightarrow> u_current_summary upd = Some []"
  by (auto simp: runtime_load_node_def Let_def split: list.splits)

lemma delete_tool_message_node_summary:
  "u_current_summary (delete_tool_message_node state) = None"
  by (simp add: delete_tool_message_node_def no_update_def)

lemma should_continue_range:
  "should_continue state = Inr n \<Longrightarrow> n = ToolNode \<or> n = END"
  by (cases "messages state"; cases "last (messages state)")
     (auto simp: should_continue_def split: if_splits)

lemma begin_turn_next:
  "begin_turn E store input = Inr cp \<Longrightarrow> cp_next cp = RuntimeLoadNode"
  by (auto simp: begin_turn_def Let_def split: sum.splits)

lemma summary_message_fresh:
  "current_summary state = Some [] \<Longrightarrow>
   summary_message state = ''Create a summary of the conversation above:''"
  by (simp add: summary_message_def get_summary_def)

lemma turn_position:
  assumes "cp_next cp0 = RuntimeLoadNode"
    and "c \<in> set (store_of (run E thread_id fuel cp0 older))" and "c \<notin> set older"
  shows "(cp_next c = RuntimeLoadNode \<longrightarrow> cp_step c = cp_step cp0)
       \<and> (cp_next c = DeleteToolMessageNode \<longrightarrow>
            cp_step c = cp_step cp0 + 1 \<and> current_summary (cp_state c) = Some [])
       \<and> (cp_next c = SummarizeConversationNode \<longrightarrow>
            cp_step c = cp_step cp0 + 2 \<and> current_summary (cp_state c) = Some [])
       \<and> (cp_next c \<in> {LlmCallNode, ToolNode, END} \<longrightarrow> cp_step cp0 + 3 \<le> cp_step c)"
proof -
  let ?P = "\<lambda>c. (cp_next c = RuntimeLoadNode \<longrightarrow> cp_step c = cp_step cp0)
       \<and> (cp_next c = DeleteToolMessageNode \<longrightarrow>
            cp_step c = cp_step cp0 + 1 \<and> current_summary (cp_state c) = Some [])
       \<and> (cp_next c = SummarizeConversationNode \<longrightarrow>
            cp_step c = cp_step cp0 + 2 \<and> current_summary (cp_state c) = Some [])
       \<and> (cp_next c \<in> {LlmCallNode, ToolNode, END} \<longrightarrow> cp_step cp0 + 3 \<le> cp_step c)"
  have keep: "?P c'" if P: "?P c" and "cp_next c \<noteq> END" and st: "step E thread_id c = Inr c'"
    for c c'
  proof -
    from st obtain upd where
      node: "run_node E thread_id (cp_next c) (cp_state c) = Inr upd" and
      merged: "apply_update (uuid4 E (cp_step c)) (cp_state c) upd = Inr (cp_state c')" and
      nxt: "next_node (cp_next c) (cp_state c') = Inr (cp_next c')" and
      k: "cp_step c' = Suc (cp_step c)"
      by (rule step_cases)
    note summary = apply_update_fields(1) [OF merged]
    show ?thesis
    proof (cases "cp_next c")
      case RuntimeLoadNode
      with node have "u_current_summary upd = Some []"
        by (simp add: run_node_def runtime_load_node_summary)
      with RuntimeLoadNode nxt k P summary show ?thesis
        by (simp add: next_node_def overwrite_def)
    next
      case DeleteToolMessageNode
      with node have "u_current_summary upd = None"
        by (auto simp: run_node_def delete_tool_message_node_summary)
      with DeleteToolMessageNode nxt k P summary show ?thesis
        by (simp add: next_node_def overwrite_def)
    next
      case SummarizeConversationNode
      with nxt k P show ?thesis by (simp add: next_node_def)
    next
      case LlmCallNode
      with nxt have "cp_next c' = ToolNode \<or> cp_next c' = END"
        by (simp add: next_node_def should_continue_range)
      with LlmCallNode k P show ?thesis by auto
    next
      case ToolNode
      with nxt k P show ?thesis by (simp add: next_node_def)
    next
      case END
      with that show ?thesis by simp
    qed
  qed
  have "\<forall>c\<in>set (store_of (run E thread_id fuel cp0 older)). c \<in> set older \<or> ?P c"
  proof (rule run_store_invariant [where P = ?P])
    fix c c'
    assume "?P c" and "cp_next c \<noteq> END" and "step E thread_id c = Inr c'"
    then show "?P c'" by (rule keep)
  next
    show "?P cp0" using assms(1) by simp
  qed
  with assms(2,3) show ?thesis by blast
qed

text \<open>
  Claim C10. In a turn, whenever the compact-context step is the node to run, the summary
  of the state is the empty string that the load-identity step wrote two steps before:
  the step is the third of the turn and is not reached again. So the instruction it puts
  after the messages is the one that asks for a new summary, never the one that extends a
  summary, and a compaction that the token count triggers sends that instruction.
\<close>

theorem compaction_creates_fresh_summary:
  assumes "c \<in> set (store_of (run_turn E thread_id fuel store input))"
    and "c \<notin> set store"
    and "cp_next c = SummarizeConversationNode"
  shows "current_summary (cp_state c) = Some []
     \<and> summary_message (cp_state c) = ''Create a summary of the conversation above:''
     \<and> (\<exists>cp0. begin_turn E store input = Inr cp0 \<and> cp_step c = cp_step cp0 + 2)
     \<and> summarize_conversation_node E (cp_state c) =
         (if count_tokens_approximately E (messages (cp_state c)) < 128 * 1000 then Inr no_update
          else case qwen3_8b E (messages (cp_state c) @
                   [HumanMessage ''Create a summary of the conversation above:'' None]) of
                 Inl e \<Rightarrow> Inl (GatewayException e)
               | Inr response \<Rightarrow>
                   Inr (no_update\<lparr>u_current_summary := Some (c_content response),
                          u_messages := Some (map (\<lambda>m. RemoveMessage (m_id m))
                            (take (length (messages (cp_state c)) - 2)
                               (messages (cp_state c))))\<rparr>))"
proof (cases "begin_turn E store input")
  case (Inl e)
  with assms(1,2) show ?thesis by (simp add: run_turn_def)
next
  case (Inr cp0)
  then have start: "cp_next cp0 = RuntimeLoadNode"
    by (rule begin_turn_next)
  have "c \<in> set (store_of (run E thread_id fuel cp0 store))"
    using assms(1) Inr by (simp add: run_turn_def)
  from turn_position [OF start this assms(2)] assms(3)
  have pos: "cp_step c = cp_step cp0 + 2" and empty: "current_summary (cp_state c) = Some []"
    by simp_all
  have instr: "summary_message (cp_state c) = ''Create a summary of the conversation above:''"
    using empty by (rule summary_message_fresh)
  have "summarize_conversation_node E (cp_state c) =
         (if count_tokens_approximately E (messages (cp_state c)) < 128 * 1000 then Inr no_update
          else case qwen3_8b E (messages (cp_state c) @
                   [HumanMessage ''Create a summary of the conversation above:'' None]) of
                 Inl e \<Rightarrow> Inl (GatewayException e)
               | Inr response \<Rightarrow>
                   Inr (no_update\<lparr>u_current_summary := Some (c_content response),
                          u_messages := Some (map (\<lambda>m. RemoveMessage (m_id m))
                            (take (length (messages (cp_state c)) - 2)
                               (messages (cp_state c))))\<rparr>))"
    unfolding summarize_conversation_node_def instr by (simp add: Let_def split: sum.splits)
  with pos empty instr Inr show ?thesis by simp
qed

section \<open>The example turn\<close>

lemma example_begin:
  "begin_turn (stub_env t s) [] first_input =
     Inr \<lparr>cp_state = fresh_thread, cp_next = RuntimeLoadNode, cp_step = 1\<rparr>"
  by (simp add: begin_turn_def first_input_def loaded_def empty_state_def fresh_thread_def
      apply_update_def add_messages_def missing_ids_def no_update_def overwrite_def
      stub_env_def stub_uuid4_def)

lemma example_step1:
  "step (stub_env t s) ''u1-s1''
     \<lparr>cp_state = fresh_thread, cp_next = RuntimeLoadNode, cp_step = 1\<rparr> =
   Inr \<lparr>cp_state = loaded, cp_next = DeleteToolMessageNode, cp_step = 2\<rparr>"
  by (simp add: step_def run_node_def next_node_def runtime_load_node_def str_split_def
      apply_update_def overwrite_def loaded_def fresh_thread_def)

lemma example_step2:
  "step (stub_env t s) ''u1-s1''
     \<lparr>cp_state = loaded, cp_next = DeleteToolMessageNode, cp_step = 2\<rparr> =
   Inr \<lparr>cp_state = loaded, cp_next = SummarizeConversationNode, cp_step = 3\<rparr>"
  by (simp add: step_def run_node_def next_node_def delete_tool_message_node_def
      apply_update_def overwrite_def loaded_def no_update_def add_messages_def missing_ids_def)

lemma example_step3:
  "step (stub_env 12 s) ''u1-s1''
     \<lparr>cp_state = loaded, cp_next = SummarizeConversationNode, cp_step = 3\<rparr> =
   Inr \<lparr>cp_state = loaded, cp_next = LlmCallNode, cp_step = 4\<rparr>"
  by (simp add: step_def run_node_def next_node_def summarize_conversation_node_def
      apply_update_def overwrite_def loaded_def no_update_def stub_env_def)

lemma stub_uuid4_4: "stub_uuid4 4 0 = ''uuuuu''"
  by (simp add: stub_uuid4_def eval_nat_numeral)

lemma stub_uuid4_5: "stub_uuid4 5 0 = ''uuuuuu''"
  by (simp add: stub_uuid4_def eval_nat_numeral)

lemma stub_uuid4_6: "stub_uuid4 6 0 = ''uuuuuuu''"
  by (simp add: stub_uuid4_def eval_nat_numeral)

lemma example_step4:
  "step (stub_env t s) ''u1-s1'' \<lparr>cp_state = loaded, cp_next = LlmCallNode, cp_step = 4\<rparr> =
   Inr \<lparr>cp_state = with_request, cp_next = ToolNode, cp_step = 5\<rparr>"
  by (simp add: step_def run_node_def next_node_def llm_call_node_def get_summary_def
      stub_env_def stub_model_def to_message_def should_continue_def
      apply_update_def overwrite_def loaded_def with_request_def no_update_def
      add_messages_def missing_ids_def stub_uuid4_4)

lemma example_step5:
  "step (stub_env t s) ''u1-s1'' \<lparr>cp_state = with_request, cp_next = ToolNode, cp_step = 5\<rparr> =
   Inr \<lparr>cp_state = with_result, cp_next = LlmCallNode, cp_step = 6\<rparr>"
  by (simp add: step_def run_node_def next_node_def tool_node_def
      stub_env_def stub_multiply_def
      apply_update_def overwrite_def loaded_def with_request_def with_result_def no_update_def
      add_messages_def missing_ids_def stub_uuid4_5)

lemma example_step6:
  "step (stub_env t s) ''u1-s1'' \<lparr>cp_state = with_result, cp_next = LlmCallNode, cp_step = 6\<rparr> =
   Inr \<lparr>cp_state = with_answer, cp_next = END, cp_step = 7\<rparr>"
  by (simp add: step_def run_node_def next_node_def llm_call_node_def get_summary_def
      stub_env_def stub_model_def to_message_def should_continue_def
      apply_update_def overwrite_def loaded_def with_request_def with_result_def
      with_answer_def no_update_def add_messages_def missing_ids_def stub_uuid4_6)

lemmas example_steps =
  example_step1 example_step2 example_step3 example_step4 example_step5 example_step6

lemma example_run_3:
  "run (stub_env 12 s) ''u1-s1'' (Suc (Suc (Suc 0)))
     \<lparr>cp_state = fresh_thread, cp_next = RuntimeLoadNode, cp_step = 1\<rparr> [] =
   Interrupted (drop 3 turn_checkpoints)"
  by (simp add: example_steps turn_checkpoints_def del: One_nat_def)


theorem compaction_creates_fresh_summary_witness:
  "turn_checkpoints ! 4 \<in> set (store_of (run_turn (stub_env 12 ''s'') ''u1-s1'' 3 [] first_input))
   \<and> turn_checkpoints ! 4 \<notin> set []
   \<and> cp_next (turn_checkpoints ! 4) = SummarizeConversationNode
   \<and> current_summary (cp_state (turn_checkpoints ! 4)) = Some []
   \<and> summary_message (cp_state (turn_checkpoints ! 4)) =
       ''Create a summary of the conversation above:''"
proof -
  have "run_turn (stub_env 12 ''s'') ''u1-s1'' (Suc (Suc (Suc 0))) [] first_input =
      Interrupted (drop 3 turn_checkpoints)"
    by (simp only: run_turn_def example_begin sum.case example_run_3)
  then have a: "turn_checkpoints ! 4
      \<in> set (store_of (run_turn (stub_env 12 ''s'') ''u1-s1'' 3 [] first_input))"
    by (simp add: numeral_3_eq_3 turn_checkpoints_def)
  have b: "turn_checkpoints ! 4 \<notin> set []"
    by simp
  have c: "cp_next (turn_checkpoints ! 4) = SummarizeConversationNode"
    by (simp add: turn_checkpoints_def)
  from compaction_creates_fresh_summary [OF a b c] a b c show ?thesis
    by simp
qed

section \<open>Routing after generation: theorems\<close>







section \<open>A model that repeats an id\<close>














end
